theory Spec2Isabelle
  imports Main "HOL-Library.List_Lexorder" "HOL-Library.Sublist"
begin

section \<open>Strings of the program\<close>

text \<open>
  The program is Python 3: a \<open>str\<close> is a sequence of Unicode code points, and the
  program's texts hold characters beyond ASCII (the count marker and the command label).
  A string is therefore a list of code points, each a natural number. \<open>sorted\<close> on
  strings compares code point by code point, a proper prefix first: the lexicographic
  order on lists.
\<close>

type_synonym ustring = "nat list"

definition asc :: "string \<Rightarrow> ustring" where
  "asc s = map of_char s"

text \<open>\<open>str.isspace\<close>, \<open>str.strip()\<close> and the pattern \<open>\s\<close>: the Unicode white space.\<close>

definition isspace :: "nat \<Rightarrow> bool" where
  "isspace c \<longleftrightarrow>
     (9 \<le> c \<and> c \<le> 13) \<or> (28 \<le> c \<and> c \<le> 32) \<or> c = 133 \<or> c = 160 \<or> c = 5760 \<or>
     (8192 \<le> c \<and> c \<le> 8202) \<or> c = 8232 \<or> c = 8233 \<or> c = 8239 \<or> c = 8287 \<or> c = 12288"

text \<open>The pattern \<open>\d\<close> on a \<open>str\<close>: the Unicode decimal digits (category Nd, Unicode 14),
  as ranges of code points.\<close>

definition decimal_ranges :: "(nat \<times> nat) list" where
  "decimal_ranges =
    [(48, 57), (1632, 1641), (1776, 1785), (1984, 1993), (2406, 2415), (2534, 2543),
     (2662, 2671), (2790, 2799), (2918, 2927), (3046, 3055), (3174, 3183), (3302, 3311),
     (3430, 3439), (3558, 3567), (3664, 3673), (3792, 3801), (3872, 3881), (4160, 4169),
     (4240, 4249), (6112, 6121), (6160, 6169), (6470, 6479), (6608, 6617), (6784, 6793),
     (6800, 6809), (6992, 7001), (7088, 7097), (7232, 7241), (7248, 7257), (42528, 42537),
     (43216, 43225), (43264, 43273), (43472, 43481), (43504, 43513), (43600, 43609),
     (44016, 44025), (65296, 65305), (66720, 66729), (68912, 68921), (69734, 69743),
     (69872, 69881), (69942, 69951), (70096, 70105), (70384, 70393), (70736, 70745),
     (70864, 70873), (71248, 71257), (71360, 71369), (71472, 71481), (71904, 71913),
     (72016, 72025), (72784, 72793), (73040, 73049), (73120, 73129), (92768, 92777),
     (92864, 92873), (93008, 93017), (120782, 120831), (123200, 123209), (123632, 123641),
     (125264, 125273), (130032, 130041)]"

definition isdecimal :: "nat \<Rightarrow> bool" where
  "isdecimal c = list_ex (\<lambda>(lo, hi). lo \<le> c \<and> c \<le> hi) decimal_ranges"

text \<open>\<open>s.strip()\<close>: white space removed at both ends.\<close>

definition strip :: "ustring \<Rightarrow> ustring" where
  "strip s = rev (dropWhile isspace (rev (dropWhile isspace s)))"

text \<open>\<open>sep.join(xs)\<close>.\<close>

fun join :: "ustring \<Rightarrow> ustring list \<Rightarrow> ustring" where
  "join sep [] = []"
| "join sep [x] = x"
| "join sep (x # y # ys) = x @ sep @ join sep (y # ys)"

text \<open>\<open>s.replace(old, new)\<close>: every occurrence, left to right, without overlap.\<close>

function replace :: "ustring \<Rightarrow> ustring \<Rightarrow> ustring \<Rightarrow> ustring" where
  "replace old new s =
     (if old = [] then new @ concat (map (\<lambda>c. c # new) s)
      else if prefix old s then new @ replace old new (drop (length old) s)
      else (case s of [] \<Rightarrow> [] | c # cs \<Rightarrow> c # replace old new cs))"
  by pat_completeness auto
termination
  by (relation "measure (\<lambda>(old, new, s). length s)") (auto simp: prefix_def)

text \<open>\<open>s.split(sep)\<close> for a non-empty separator (the program's separators are
  constants): the pieces between the occurrences of \<open>sep\<close>, never an empty list.\<close>

function split :: "ustring \<Rightarrow> ustring \<Rightarrow> ustring list" where
  "split sep s =
     (if sep \<noteq> [] \<and> prefix sep s then [] # split sep (drop (length sep) s)
      else (case s of
              [] \<Rightarrow> [[]]
            | c # cs \<Rightarrow> (case split sep cs of [] \<Rightarrow> [[c]] | h # t \<Rightarrow> (c # h) # t)))"
  by pat_completeness auto
termination
  by (relation "measure (\<lambda>(sep, s). length s)") (auto simp: prefix_def)













section \<open>Regular expressions of the program\<close>

text \<open>
  The patterns of the program are built from literals, a character class under
  \<open>*\<close>, \<open>+\<close> or the lazy \<open>*?\<close>, concatenation and capturing groups. \<open>bt\<close> lists, for
  a pattern at the start of a text, every way to match in the order in which the
  backtracking matcher of \<open>re\<close> tries them: the matched text, the captured groups in the
  order of their opening parentheses, and the rest. The matcher takes the first.
\<close>

datatype cclass = Space | Digit | AnyChar | NotChar nat

fun in_class :: "cclass \<Rightarrow> nat \<Rightarrow> bool" where
  "in_class Space c = isspace c"
| "in_class Digit c = isdecimal c"
| "in_class AnyChar c = True"
| "in_class (NotChar d) c = (c \<noteq> d)"

datatype rx = Lit ustring | Star cclass | Plus cclass | LazyStar cclass | Cat rx rx | Grp rx

type_synonym rmatch = "ustring \<times> ustring list \<times> ustring"

definition cuts :: "nat list \<Rightarrow> ustring \<Rightarrow> rmatch list" where
  "cuts ks s = map (\<lambda>k. (take k s, [], drop k s)) ks"

fun bt :: "rx \<Rightarrow> ustring \<Rightarrow> rmatch list" where
  "bt (Lit l) s = (if prefix l s then [(l, [], drop (length l) s)] else [])"
| "bt (Star c) s = cuts (rev [0 ..< Suc (length (takeWhile (in_class c) s))]) s"
| "bt (Plus c) s = cuts (rev [1 ..< Suc (length (takeWhile (in_class c) s))]) s"
| "bt (LazyStar c) s = cuts [0 ..< Suc (length (takeWhile (in_class c) s))] s"
| "bt (Cat a b) s =
     concat (map (\<lambda>(m1, c1, r1). map (\<lambda>(m2, c2, r2). (m1 @ m2, c1 @ c2, r2)) (bt b r1)) (bt a s))"
| "bt (Grp a) s = map (\<lambda>(m, c, r). (m, m # c, r)) (bt a s)"


text \<open>The match at the start of \<open>s\<close>. After an empty match the scanner asks for a
  match that advances (\<open>adv\<close>), as \<open>re\<close> does since Python 3.7.\<close>

definition match_at :: "rx \<Rightarrow> bool \<Rightarrow> ustring \<Rightarrow> rmatch option" where
  "match_at r adv s =
     (case filter (\<lambda>(m, c, r). if adv then m \<noteq> [] else True) (bt r s) of
        [] \<Rightarrow> None
      | x # _ \<Rightarrow> Some x)"

lemma bt_split: "(m, c, r) \<in> set (bt p s) \<Longrightarrow> s = m @ r"
proof (induction p arbitrary: m c r s)
  case (Lit l)
  then show ?case by (auto simp: prefix_def split: if_splits)
next
  case (Cat a b)
  then show ?case by fastforce
qed (auto simp: cuts_def)

lemma match_at_in_bt: "match_at p adv s = Some x \<Longrightarrow> x \<in> set (bt p s)"
proof -
  assume "match_at p adv s = Some x"
  then obtain ys where "filter (\<lambda>(m, c, r). if adv then m \<noteq> [] else True) (bt p s) = x # ys"
    by (auto simp: match_at_def split: list.splits)
  then have "x \<in> set (filter (\<lambda>(m, c, r). if adv then m \<noteq> [] else True) (bt p s))"
    by simp
  then show ?thesis by simp
qed

lemma match_at_split: "match_at p adv s = Some (m, c, r) \<Longrightarrow> s = m @ r"
  using match_at_in_bt bt_split by blast

lemma match_at_adv: "match_at p True s = Some (m, c, r) \<Longrightarrow> m \<noteq> []"
proof -
  assume "match_at p True s = Some (m, c, r)"
  then obtain ys where "filter (\<lambda>(m, c, r). m \<noteq> []) (bt p s) = (m, c, r) # ys"
    by (auto simp: match_at_def split: list.splits)
  then have "(m, c, r) \<in> set (filter (\<lambda>(m, c, r). m \<noteq> []) (bt p s))"
    by simp
  then show ?thesis by simp
qed

lemma match_at_shorter:
  "match_at p adv s = Some (m, c, r) \<Longrightarrow> m \<noteq> [] \<Longrightarrow> length r < length s"
  by (auto dest: match_at_split)

text \<open>The scan that \<open>re.sub\<close> and \<open>re.findall\<close> share: the text cut into the
  characters no match covers and the matches, left to right, without overlap.\<close>

datatype item = Chr nat | Match ustring "ustring list"

function scan :: "rx \<Rightarrow> bool \<Rightarrow> ustring \<Rightarrow> item list" where
  "scan p adv s =
     (case match_at p adv s of
        Some (m, c, r) \<Rightarrow> Match m c # (if m = [] then (if adv then [] else scan p True s) else scan p False r)
      | None \<Rightarrow> (case s of [] \<Rightarrow> [] | x # xs \<Rightarrow> Chr x # scan p False xs))"
  by pat_completeness auto
termination
  by (relation "measure (\<lambda>(p, adv, s). 2 * length s + (if adv then 0 else 1))")
     (auto dest: match_at_shorter)


text \<open>\<open>re.findall\<close>: for a pattern without group the matched texts, for a pattern
  with one group the texts of the group.\<close>

fun matches_of :: "item list \<Rightarrow> (ustring \<times> ustring list) list" where
  "matches_of [] = []"
| "matches_of (Chr x # is) = matches_of is"
| "matches_of (Match m c # is) = (m, c) # matches_of is"


definition re_findall1 :: "rx \<Rightarrow> ustring \<Rightarrow> ustring list" where
  "re_findall1 p s = map (\<lambda>(m, c). case c of [] \<Rightarrow> [] | g # _ \<Rightarrow> g) (matches_of (scan p False s))"

subsection \<open>Replacement templates\<close>













section \<open>The plugin manager\<close>


subsection \<open>Literals and patterns\<close>





text \<open>The label of the command block: \<open><br><br>\<close>, U+547D, U+4EE4, U+FF1A.\<close>

definition cmd_label :: ustring where
  "cmd_label = asc ''<br><br>'' @ [21629, 20196, 65306]"

definition h3_open :: ustring where \<open>h3_open = asc ''<h3 id="''\<close>

definition tag_close :: ustring where \<open>tag_close = asc ''">''\<close>

text \<open>\<open><h3 id="([^"]+)">\<close> and \<open><h3 id="[^"]+">\<close>.\<close>

definition h3_rx :: rx where
  "h3_rx = Cat (Lit h3_open) (Cat (Grp (Plus (NotChar 34))) (Lit tag_close))"












subsection \<open>Listing\<close>

text \<open>An entry of \<open>os.listdir(PLUGINS_DIR)\<close>: its name, whether it is a directory,
  and whether the file \<open>NAME/NAME.ts\<close> exists.\<close>

record dir_entry =
  entry_name :: ustring
  entry_is_dir :: bool
  entry_has_ts :: bool

definition get_plugins_from_dir :: "dir_entry list \<Rightarrow> ustring list" where
  "get_plugins_from_dir listing =
     sort (map entry_name (filter (\<lambda>e. entry_is_dir e \<and> \<not> prefix (asc ''.'') (entry_name e)
              \<and> entry_name e \<notin> set [asc ''node_modules'', asc ''scripts''] \<and> entry_has_ts e) listing))"

definition get_plugins_from_html :: "ustring option \<Rightarrow> ustring list" where
  "get_plugins_from_html file =
     (case file of None \<Rightarrow> [] | Some html \<Rightarrow> sort (re_findall1 h3_rx html))"


subsection \<open>Writing\<close>



subsection \<open>The codec\<close>

definition escape_html :: "ustring \<Rightarrow> ustring" where
  "escape_html s = replace (asc ''>'') (asc ''&gt;'')
                     (replace (asc ''<'') (asc ''&lt;'') (replace (asc ''&'') (asc ''&amp;'') s))"


text \<open>\<open>cmd.split(' ', 1)\<close>: the name before the first space, and the text after it,
  empty when there is no space.\<close>

definition cmd_name :: "ustring \<Rightarrow> ustring" where
  "cmd_name cmd = takeWhile (\<lambda>c. c \<noteq> 32) cmd"

definition cmd_desc :: "ustring \<Rightarrow> ustring" where
  "cmd_desc cmd = drop 1 (dropWhile (\<lambda>c. c \<noteq> 32) cmd)"

definition code_item :: "ustring \<Rightarrow> ustring \<Rightarrow> ustring" where
  "code_item name desc = asc ''<code>'' @ name @ asc ''</code> '' @ desc"

definition text_to_html :: "ustring \<Rightarrow> ustring list \<Rightarrow> ustring" where
  "text_to_html description commands =
     (let desc = escape_html description in
      if commands = [] then desc
      else
        let cmd_parts =
              concat (map (\<lambda>cmd. let cmd = strip cmd in
                             if cmd \<noteq> [] then [code_item (cmd_name cmd) (escape_html (cmd_desc cmd))]
                             else []) commands)
        in if cmd_parts \<noteq> [] then desc @ cmd_label @ join (asc ''<br>'') cmd_parts else desc)"


subsection \<open>Adding an entry\<close>






definition re_special :: "nat \<Rightarrow> bool" where
  "re_special c \<longleftrightarrow> c \<in> set [46, 94, 36, 42, 43, 63, 123, 125, 91, 93, 92, 124, 40, 41]"




subsection \<open>Editing an entry\<close>




subsection \<open>Deleting an entry\<close>


subsection \<open>The difference of the two listings\<close>

text \<open>\<open>missing\<close> and \<open>extra\<close> of \<open>sync_plugins\<close> and \<open>show_stats\<close>.\<close>

definition diff :: "ustring list \<Rightarrow> ustring list \<Rightarrow> ustring list \<times> ustring list" where
  "diff dir_plugins html_plugins =
     (filter (\<lambda>p. p \<notin> set html_plugins) dir_plugins,
      filter (\<lambda>p. p \<notin> set dir_plugins) html_plugins)"

definition show_stats :: "dir_entry list \<Rightarrow> ustring option \<Rightarrow> ustring list \<times> ustring list" where
  "show_stats listing file = diff (get_plugins_from_dir listing) (get_plugins_from_html file)"

subsection \<open>The menus\<close>









section \<open>The difference of the listings\<close>

lemma sorted_filter': "sorted xs \<Longrightarrow> sorted (filter P xs)" by (rule sorted_filter[where f=id, simplified])

text \<open>
  Claim C5. \<open>missing\<close> holds the names of the directory that the document lacks and
  \<open>extra\<close> the names of the document that the directory lacks, as sets; each is sorted
  when the list it is filtered from is, and the two lists of the program are sorted, so
  both results of \<open>show_stats\<close> (and of \<open>sync_plugins\<close>) are sorted. Every name is in
  exactly one of the four classes: in both lists, missing, extra, in neither.
\<close>

theorem diff_is_set_difference:
  "set (fst (diff fs doc)) = set fs - set doc \<and> set (snd (diff fs doc)) = set doc - set fs
   \<and> (if sorted fs then sorted (fst (diff fs doc)) else True)
   \<and> (if sorted doc then sorted (snd (diff fs doc)) else True)
   \<and> sorted (fst (show_stats listing file)) \<and> sorted (snd (show_stats listing file))
   \<and> (of_bool (n \<in> set fs \<and> n \<in> set doc) + of_bool (n \<in> set (fst (diff fs doc)))
        + of_bool (n \<in> set (snd (diff fs doc))) + of_bool (n \<notin> set fs \<and> n \<notin> set doc) = (1::nat))"
proof -
  have "sorted (get_plugins_from_dir listing)" by (simp add: get_plugins_from_dir_def)
  moreover have "sorted (get_plugins_from_html file)"
    by (simp add: get_plugins_from_html_def split: option.splits)
  ultimately show ?thesis
    by (auto simp: diff_def show_stats_def sorted_filter')
qed

theorem diff_is_set_difference_witness:
  "fst (diff [asc ''a'', asc ''b''] [asc ''b'', asc ''c'']) = [asc ''a'']
   \<and> snd (diff [asc ''a'', asc ''b''] [asc ''b'', asc ''c'']) = [asc ''c'']
   \<and> sorted (fst (diff [asc ''a'', asc ''b''] [asc ''b'', asc ''c'']))
   \<and> set (fst (diff [asc ''a'', asc ''b''] [asc ''b'', asc ''c''])) = {asc ''a''}"
  using diff_is_set_difference [of "[asc ''a'', asc ''b'']" "[asc ''b'', asc ''c'']" "[]" None "asc ''a''"]
  by (simp add: diff_def asc_def)

section \<open>The missing document\<close>








section \<open>The codec normalizes its commands\<close>

lemma strip_prefix: "\<exists>w. dropWhile isspace s = strip s @ w"
proof -
  let ?t = "dropWhile isspace s"
  have "rev (dropWhile isspace (rev ?t)) @ rev (takeWhile isspace (rev ?t))
          = rev (takeWhile isspace (rev ?t) @ dropWhile isspace (rev ?t))"
    by (simp only: rev_append)
  also have "\<dots> = ?t" by (simp only: takeWhile_dropWhile_id rev_rev_ident)
  finally have "?t = strip s @ rev (takeWhile isspace (rev ?t))" by (simp add: strip_def)
  then show ?thesis by blast
qed

lemma strip_no_leading: "dropWhile isspace (strip s) = strip s"
proof (cases "strip s")
  case Nil
  then show ?thesis by simp
next
  case (Cons x xs)
  obtain w where w: "dropWhile isspace s = strip s @ w" using strip_prefix by blast
  then have "dropWhile isspace s = x # xs @ w" using Cons by simp
  then have "\<not> isspace x" using hd_dropWhile[of isspace s] by (metis list.sel(1) list.distinct(1))
  then show ?thesis using Cons by simp
qed

lemma strip_no_trailing: "dropWhile isspace (rev (strip s)) = rev (strip s)"
  by (simp add: strip_def)

lemma strip_strip: "strip (strip s) = strip s"
proof -
  have "strip (strip s) = rev (dropWhile isspace (rev (dropWhile isspace (strip s))))"
    by (simp add: strip_def)
  also have "\<dots> = rev (dropWhile isspace (rev (strip s)))" by (simp add: strip_no_leading)
  also have "\<dots> = strip s" by (simp add: strip_no_trailing)
  finally show ?thesis .
qed

definition cmd_part :: "ustring \<Rightarrow> ustring list" where
  "cmd_part c = (let cmd = strip c in
                             if cmd \<noteq> [] then [code_item (cmd_name cmd) (escape_html (cmd_desc cmd))]
                             else [])"

lemma cmd_parts_normal:
  "concat (map cmd_part (filter (\<lambda>c. c \<noteq> []) (map strip cmds))) = concat (map cmd_part cmds)"
  by (induction cmds) (auto simp: cmd_part_def Let_def strip_strip)

lemma text_to_html_alt:
  "text_to_html d cmds = (if concat (map cmd_part cmds) = [] then escape_html d
      else escape_html d @ cmd_label @ join (asc ''<br>'') (concat (map cmd_part cmds)))"
  unfolding text_to_html_def Let_def cmd_part_def by (cases cmds) auto

text \<open>
  Claim C10. \<open>text_to_html\<close> strips every command and drops the commands that are
  empty after stripping: the result is the one for the stripped, non-empty commands; and
  when every command is empty after stripping, the result is the escaped description alone.
\<close>

theorem text_to_html_normalizes:
  "text_to_html description commands =
     text_to_html description (filter (\<lambda>c. c \<noteq> []) (map strip commands))
   \<and> (if list_all (\<lambda>c. strip c = []) commands then text_to_html description commands = escape_html description else True)"
proof -
  have a: "list_all (\<lambda>c. strip c = []) commands \<Longrightarrow> concat (map cmd_part commands) = []"
    by (induction commands) (auto simp: cmd_part_def)
  show ?thesis by (auto simp: text_to_html_alt cmd_parts_normal a)
qed

theorem text_to_html_normalizes_witness:
  "text_to_html (asc ''d'') [asc '' .p x '', [], asc ''  ''] = text_to_html (asc ''d'') [asc ''.p x'']
   \<and> text_to_html (asc ''d'') [[], asc ''  ''] = escape_html (asc ''d'')"
  using text_to_html_normalizes [of "asc ''d''" "[asc '' .p x '', [], asc ''  '']"]
        text_to_html_normalizes [of "asc ''d''" "[[], asc ''  '']"]
  by (simp add: strip_def isspace_def asc_def text_to_html_def)

section \<open>The count marker\<close>

subsection \<open>A greedy class before a literal\<close>

lemma concat_map_Nil: "(\<And>k. k \<in> set ks \<Longrightarrow> f k = []) \<Longrightarrow> concat (map f ks) = []"
  by (induction ks) auto

lemma drop_in_takeWhile:
  assumes "k < length (takeWhile P s)"
  shows "\<exists>t. drop k s = (s ! k) # t \<and> P (s ! k)"
proof -
  have kl: "k < length s" using assms length_takeWhile_le[of P s] by simp
  have "takeWhile P s ! k = s ! k" using assms by (rule takeWhile_nth)
  moreover have "takeWhile P s ! k \<in> set (takeWhile P s)" using assms by simp
  ultimately have "P (s ! k)" using set_takeWhileD by metis
  moreover have "drop k s = s ! k # drop (Suc k) s" using kl by (simp add: Cons_nth_drop_Suc)
  ultimately show ?thesis by blast
qed

definition lit_after :: "ustring \<Rightarrow> ustring \<Rightarrow> nat \<Rightarrow> rmatch list" where
  "lit_after l s k = (if prefix l (drop k s) then [(take k s @ l, [], drop (length l) (drop k s))] else [])"

lemma bt_cuts_Lit:
  "concat (map (\<lambda>(m1, c1, r1). map (\<lambda>(m2, c2, r2). (m1 @ m2, c1 @ c2, r2)) (bt (Lit l) r1)) (cuts ks s))
    = concat (map (lit_after l s) ks)"
  by (induction ks) (auto simp: cuts_def lit_after_def)

lemma lit_after_inside:
  assumes "\<not> in_class c x" "k < length (takeWhile (in_class c) s)"
  shows "lit_after (x # l) s k = []"
proof -
  obtain t where "drop k s = (s ! k) # t" "in_class c (s ! k)"
    using drop_in_takeWhile[OF assms(2)] by blast
  then show ?thesis using assms(1) by (auto simp: lit_after_def)
qed

lemma lit_after_end:
  "lit_after l s (length (takeWhile P s)) =
     (if prefix l (dropWhile P s) then [(takeWhile P s @ l, [], drop (length l) (dropWhile P s))] else [])"
  by (simp add: lit_after_def takeWhile_eq_take[symmetric] dropWhile_eq_drop[symmetric])

lemma bt_Star_Lit:
  assumes "\<not> in_class c x"
  shows "bt (Cat (Star c) (Lit (x # l))) s =
     (if prefix (x # l) (dropWhile (in_class c) s)
      then [(takeWhile (in_class c) s @ x # l, [], drop (Suc (length l)) (dropWhile (in_class c) s))] else [])"
proof -
  let ?n = "length (takeWhile (in_class c) s)"
  have "bt (Cat (Star c) (Lit (x # l))) s = concat (map (lit_after (x # l) s) (rev [0 ..< Suc ?n]))"
    by (simp only: bt.simps(2,5) bt_cuts_Lit)
  also have "\<dots> = lit_after (x # l) s ?n @ concat (map (lit_after (x # l) s) (rev [0 ..< ?n]))"
    by simp
  also have "concat (map (lit_after (x # l) s) (rev [0 ..< ?n])) = []"
    by (rule concat_map_Nil) (simp add: lit_after_inside[OF assms])
  finally show ?thesis by (simp add: lit_after_end)
qed





subsection \<open>The two patterns of \<open>update_plugin_count\<close>\<close>




definition is_h3 :: "ustring \<Rightarrow> bool" where
  "is_h3 s \<longleftrightarrow> prefix h3_open s \<and> takeWhile (\<lambda>c. c \<noteq> 34) (drop 8 s) \<noteq> []
         \<and> prefix tag_close (dropWhile (\<lambda>c. c \<noteq> 34) (drop 8 s))"



















subsection \<open>Substituting the marker keeps the headings\<close>





lemma not_h3_Nil: "\<not> is_h3 []"
  by (simp add: is_h3_def h3_open_def asc_def)
























end
